theory Spec2Isabelle
  imports Main
begin

section \<open>Values read from a JSON schema\<close>

text \<open>
  A schema is a Python dictionary obtained from JSON. Its values are dynamically typed, so
  they are modelled by one datatype. A dictionary keeps its insertion order and is an
  association list. JSON numbers are the integers; fractional numbers are outside the model.
\<close>

datatype json =
    JNull
  | JBool bool
  | JInt int
  | JStr string
  | JArr "json list"
  | JObj "(string \<times> json) list"

type_synonym pydict = "(string \<times> json) list"

datatype py_error =
    ValueError string
  | TypeError
  | AttributeError
  | IndexError
  | ZeroDivisionError

text \<open>Python's truth value of an object, as \<open>if x:\<close>, \<open>x and y\<close> and \<open>x or y\<close> test it.\<close>

fun truthy :: "json \<Rightarrow> bool" where
  "truthy JNull = False"
| "truthy (JBool b) = b"
| "truthy (JInt n) = (n \<noteq> 0)"
| "truthy (JStr s) = (s \<noteq> [])"
| "truthy (JArr xs) = (xs \<noteq> [])"
| "truthy (JObj kvs) = (kvs \<noteq> [])"

text \<open>\<open>d.get(k, default)\<close> and \<open>k in d\<close> on a dictionary.\<close>

definition dict_get :: "pydict \<Rightarrow> string \<Rightarrow> json \<Rightarrow> json" where
  "dict_get d k dflt = (case map_of d k of None \<Rightarrow> dflt | Some v \<Rightarrow> v)"

definition dict_has :: "pydict \<Rightarrow> string \<Rightarrow> bool" where
  "dict_has d k = (map_of d k \<noteq> None)"

text \<open>
  The value of a Python object in integer arithmetic: \<open>bool\<close> is a subclass of \<open>int\<close>;
  adding an integer to anything else of the model raises \<open>TypeError\<close>.
\<close>

fun as_int :: "json \<Rightarrow> int option" where
  "as_int (JInt n) = Some n"
| "as_int (JBool b) = Some (if b then 1 else 0)"
| "as_int _ = None"

section \<open>The schema model (schema\_analyzer.py)\<close>

record field =
  name :: string
  type :: json
  properties :: pydict
  is_array :: bool
  is_object :: bool
  required :: json
  default :: json
  items :: json

text \<open>The constructor \<open>Field(name, field_type, properties)\<close>; \<open>None\<close> is \<open>JNull\<close>.\<close>

definition Field :: "string \<Rightarrow> json \<Rightarrow> pydict option \<Rightarrow> field" where
  "Field nm field_type props =
     (let ps = (case props of None \<Rightarrow> [] | Some d \<Rightarrow> d) in
      \<lparr> name = nm,
        type = field_type,
        properties = ps,
        is_array = (field_type = JStr ''array''),
        is_object = (field_type = JStr ''object''),
        required = dict_get ps ''required'' (JBool False),
        default = dict_get ps ''default'' JNull,
        items = dict_get ps ''items'' JNull \<rparr>)"

text \<open>
  A collection: its name, the dictionary \<open>fields\<close> from field name to field (here
  \<open>coll_fields\<close>) and the configured number of documents.
\<close>

record collection =
  coll_name :: string
  coll_fields :: "(string \<times> field) list"
  document_count :: int

section \<open>The size estimator (size\_calculator.py)\<close>

definition TYPE_SIZES :: "(string \<times> int) list" where
  "TYPE_SIZES =
     [(''string'', 50), (''number'', 8), (''integer'', 4), (''boolean'', 1),
      (''array'', 16), (''object'', 24), (''null'', 0)]"

text \<open>
  \<open>TYPE_SIZES.get(field_type, 50)\<close>: the key is hashed first, and a list or a dictionary
  is unhashable; every other object that is not one of the seven strings gets the default.
\<close>

fun type_sizes_get :: "json \<Rightarrow> py_error + int" where
  "type_sizes_get (JStr s) = Inr (case map_of TYPE_SIZES s of None \<Rightarrow> 50 | Some n \<Rightarrow> n)"
| "type_sizes_get (JArr xs) = Inl TypeError"
| "type_sizes_get (JObj kvs) = Inl TypeError"
| "type_sizes_get _ = Inr 50"

definition get_type_size :: "json \<Rightarrow> pydict option \<Rightarrow> py_error + json" where
  "get_type_size field_type props =
     (let ps = (case props of None \<Rightarrow> [] | Some d \<Rightarrow> d) in
      case type_sizes_get field_type of
        Inl e \<Rightarrow> Inl e
      | Inr base_size \<Rightarrow>
          if field_type = JStr ''string'' then
            (if dict_has ps ''maxLength'' then Inr (dict_get ps ''maxLength'' JNull)
             else if dict_has ps ''minLength'' then Inr (dict_get ps ''minLength'' JNull)
             else Inr (JInt base_size))
          else Inr (JInt base_size))"

text \<open>
  The body of the loop of \<open>calculate_document_size\<close> up to the value of \<open>field_size\<close>
  that is added to the total. \<open>field.items.get\<close> exists on a dictionary only, and
  \<open>item_size * 5 + 16\<close> is integer arithmetic.
\<close>

definition field_size :: "field \<Rightarrow> py_error + json" where
  "field_size f =
     (case get_type_size (type f) (Some (properties f)) of
        Inl e \<Rightarrow> Inl e
      | Inr size0 \<Rightarrow>
          (case (if is_array f \<and> truthy (items f) then
                   (case items f of
                      JObj kvs \<Rightarrow>
                        (case get_type_size (dict_get kvs ''type'' (JStr ''object'')) None of
                           Inl e \<Rightarrow> Inl e
                         | Inr item_size \<Rightarrow>
                             (case as_int item_size of
                                None \<Rightarrow> Inl TypeError
                              | Some n \<Rightarrow> Inr (JInt (n * 5 + 16))))
                    | _ \<Rightarrow> Inl AttributeError)
                 else Inr size0) of
             Inl e \<Rightarrow> Inl e
           | Inr size1 \<Rightarrow> Inr (if is_object f then JInt 24 else size1)))"

fun document_size_loop :: "int \<Rightarrow> (string \<times> field) list \<Rightarrow> py_error + int" where
  "document_size_loop total_size [] = Inr total_size"
| "document_size_loop total_size ((field_name, f) # rest) =
     (case field_size f of
        Inl e \<Rightarrow> Inl e
      | Inr v \<Rightarrow>
          (case as_int v of
             None \<Rightarrow> Inl TypeError
           | Some n \<Rightarrow> document_size_loop (total_size + (n + 8)) rest))"

definition calculate_document_size :: "collection \<Rightarrow> py_error + int" where
  "calculate_document_size c = document_size_loop 24 (coll_fields c)"

section \<open>The sharding statistics engine (statistics\_calculator.py)\<close>

text \<open>
  A key value is any hashable Python object. The values a caller's generator returns have
  an arbitrary type \<open>'k\<close>; the built-in default distribution uses integer labels.
\<close>

datatype 'k key_value = Bucket int | Key 'k

record 'a sharding_statistics =
  collection_name :: string
  sharding_key :: string
  distribution :: "('a \<times> int) list"
  total_documents :: int

definition ShardingStatistics :: "string \<Rightarrow> string \<Rightarrow> 'a sharding_statistics" where
  "ShardingStatistics cname skey =
     \<lparr> collection_name = cname, sharding_key = skey, distribution = [], total_documents = 0 \<rparr>"

text \<open>
  \<open>self.distribution[key_value] += 1\<close> on a \<open>defaultdict(int)\<close>: a missing key is
  entered with 0 at the end of the dictionary, then incremented.
\<close>

fun defaultdict_incr :: "'a \<Rightarrow> ('a \<times> int) list \<Rightarrow> ('a \<times> int) list" where
  "defaultdict_incr k [] = [(k, 0 + 1)]"
| "defaultdict_incr k ((k', c) # d) =
     (if k = k' then (k', c + 1) # d else (k', c) # defaultdict_incr k d)"

definition add_document :: "'a sharding_statistics \<Rightarrow> 'a \<Rightarrow> 'a sharding_statistics" where
  "add_document s key_value =
     s\<lparr> distribution := defaultdict_incr key_value (distribution s),
        total_documents := total_documents s + 1 \<rparr>"

fun add_documents_batch :: "'a sharding_statistics \<Rightarrow> 'a list \<Rightarrow> 'a sharding_statistics" where
  "add_documents_batch s [] = s"
| "add_documents_batch s (key_value # key_values) =
     add_documents_batch (add_document s key_value) key_values"

text \<open>
  Floating-point arithmetic is a parameter of the model: a type \<open>'f\<close> of floats and one
  operation for each float operation of \<open>get_statistics\<close>. Nothing is assumed about what the
  operations compute, so every statement below holds for the arithmetic of any platform.
  Each operation returns a float: the \<open>OverflowError\<close> of an integer or a square beyond the
  range of the doubles needs counts above \<open>10 ^ 154\<close>.
\<close>

record 'f float_arith =
  fl_truediv :: "int \<Rightarrow> int \<Rightarrow> 'f"
  fl_int_minus :: "int \<Rightarrow> 'f \<Rightarrow> 'f"
  fl_square :: "'f \<Rightarrow> 'f"
  fl_sum :: "'f list \<Rightarrow> 'f"
  fl_div_int :: "'f \<Rightarrow> int \<Rightarrow> 'f"
  fl_sqrt :: "'f \<Rightarrow> 'f"
  fl_positive :: "'f \<Rightarrow> bool"
  fl_int_div :: "int \<Rightarrow> 'f \<Rightarrow> 'f"
  fl_round :: "'f \<Rightarrow> nat \<Rightarrow> 'f"

text \<open>
  They stand for: \<open>a / b\<close> on two integers; \<open>x - y\<close> for an integer and a float; \<open>y ** 2\<close>;
  \<open>sum\<close> of a non-empty sequence of floats; \<open>y / n\<close> for a float and an integer;
  \<open>math.sqrt(y)\<close>; \<open>y > 0\<close>; \<open>a / y\<close> for an integer and a float; \<open>round(y, ndigits)\<close>.
  A number that is an \<open>int\<close> on one path and a \<open>float\<close> on another keeps its kind, and
  \<open>round\<close> with \<open>ndigits \<ge> 0\<close> returns an \<open>int\<close> unchanged.
\<close>

datatype 'f number = PyInt int | PyFloat 'f

fun round_number :: "'f float_arith \<Rightarrow> 'f number \<Rightarrow> nat \<Rightarrow> 'f number" where
  "round_number fl (PyInt n) ndigits = PyInt n"
| "round_number fl (PyFloat y) ndigits = PyFloat (fl_round fl y ndigits)"

text \<open>The local variables of \<open>get_statistics\<close>.\<close>

definition "values" :: "'a sharding_statistics \<Rightarrow> int list" where
  "values s = map snd (distribution s)"

definition unique_shards :: "'a sharding_statistics \<Rightarrow> nat" where
  "unique_shards s = length (distribution s)"

definition min_docs :: "'a sharding_statistics \<Rightarrow> int" where
  "min_docs s = Min (set (values s))"

definition max_docs :: "'a sharding_statistics \<Rightarrow> int" where
  "max_docs s = Max (set (values s))"

definition avg_docs :: "'f float_arith \<Rightarrow> 'a sharding_statistics \<Rightarrow> 'f" where
  "avg_docs fl s = fl_truediv fl (total_documents s) (int (unique_shards s))"

definition variance :: "'f float_arith \<Rightarrow> 'a sharding_statistics \<Rightarrow> 'f" where
  "variance fl s =
     fl_div_int fl
       (fl_sum fl (map (\<lambda>x. fl_square fl (fl_int_minus fl x (avg_docs fl s))) (values s)))
       (int (unique_shards s))"

definition std_dev :: "'f float_arith \<Rightarrow> 'a sharding_statistics \<Rightarrow> 'f" where
  "std_dev fl s = fl_sqrt fl (variance fl s)"

definition balance_factor :: "'f float_arith \<Rightarrow> 'a sharding_statistics \<Rightarrow> 'f number" where
  "balance_factor fl s =
     (if fl_positive fl (avg_docs fl s)
      then PyFloat (fl_int_div fl (max_docs s - min_docs s) (avg_docs fl s))
      else PyInt 0)"

text \<open>The two dictionaries \<open>get_statistics\<close> returns, one record each.\<close>

record empty_report =
  e_collection :: string
  e_sharding_key :: string
  e_total_documents :: int
  e_unique_shard_values :: int
  e_error :: string

record ('a, 'f) full_report =
  r_collection :: string
  r_sharding_key :: string
  r_total_documents :: int
  r_unique_shard_values :: nat
  r_min_documents_per_shard :: int
  r_max_documents_per_shard :: int
  r_avg_documents_per_shard :: 'f
  r_std_deviation :: 'f
  r_variance :: 'f
  r_balance_factor :: "'f number"
  r_distribution :: "('a \<times> int) list"

datatype ('a, 'f) report = Empty empty_report | Full "('a, 'f) full_report"

text \<open>
  \<open>min\<close> of an empty list raises \<open>ValueError\<close> (the text of its message depends on the
  version of Python); after it \<open>unique_shards\<close> is positive and no division is by zero.
\<close>

definition get_statistics ::
  "'f float_arith \<Rightarrow> 'a sharding_statistics \<Rightarrow> py_error + ('a, 'f) report" where
  "get_statistics fl s =
     (if total_documents s = 0 then
        Inr (Empty \<lparr> e_collection = collection_name s,
                     e_sharding_key = sharding_key s,
                     e_total_documents = 0,
                     e_unique_shard_values = 0,
                     e_error = ''No documents in collection'' \<rparr>)
      else if values s = [] then Inl (ValueError ''min() arg is an empty sequence'')
      else
        Inr (Full \<lparr> r_collection = collection_name s,
                    r_sharding_key = sharding_key s,
                    r_total_documents = total_documents s,
                    r_unique_shard_values = unique_shards s,
                    r_min_documents_per_shard = min_docs s,
                    r_max_documents_per_shard = max_docs s,
                    r_avg_documents_per_shard = fl_round fl (avg_docs fl s) 2,
                    r_std_deviation = fl_round fl (std_dev fl s) 2,
                    r_variance = fl_round fl (variance fl s) 2,
                    r_balance_factor = round_number fl (balance_factor fl s) 4,
                    r_distribution = distribution s \<rparr>))"

text \<open>
  \<open>range(n)\<close>, empty when \<open>n \<le> 0\<close>, and \<open>xs[i]\<close>, where a negative index counts from
  the end of the list.
\<close>

definition py_range :: "int \<Rightarrow> int list" where
  "py_range n = [0..n - 1]"

definition list_index :: "'a list \<Rightarrow> int \<Rightarrow> py_error + 'a" where
  "list_index xs i =
     (if i < - int (length xs) \<or> int (length xs) \<le> i then Inl IndexError
      else if i < 0 then Inr (xs ! nat (int (length xs) + i))
      else Inr (xs ! nat i))"

text \<open>A list comprehension whose element expression can raise stops at the first error.\<close>

fun comprehension :: "('a \<Rightarrow> py_error + 'b) \<Rightarrow> 'a list \<Rightarrow> py_error + 'b list" where
  "comprehension f [] = Inr []"
| "comprehension f (x # xs) =
     (case f x of
        Inl e \<Rightarrow> Inl e
      | Inr y \<Rightarrow> (case comprehension f xs of Inl e \<Rightarrow> Inl e | Inr ys \<Rightarrow> Inr (y # ys)))"

text \<open>
  \<open>sample_size or collection.document_count\<close>: the left operand when it is truthy, so
  neither \<open>None\<close> nor 0.
\<close>

definition resolve_doc_count :: "int option \<Rightarrow> int \<Rightarrow> int" where
  "resolve_doc_count sample_size dc =
     (case sample_size of None \<Rightarrow> dc | Some n \<Rightarrow> if n \<noteq> 0 then n else dc)"

definition key_not_found :: "string \<Rightarrow> py_error" where
  "key_not_found skey =
     ValueError (''Sharding key '' @ [CHR 0x27] @ skey @ [CHR 0x27] @
                 '' not found in collection schema'')"

text \<open>
  \<open>shard_values[i % len(shard_values)]\<close>, the element expression of the default
  distribution; \<open>%\<close> by 0 raises, and for a positive divisor it is \<open>mod\<close>.
\<close>

definition default_key :: "int list \<Rightarrow> int \<Rightarrow> py_error + int" where
  "default_key shard_values i =
     (if length shard_values = 0 then Inl ZeroDivisionError
      else list_index shard_values (i mod int (length shard_values)))"

text \<open>
  The generator is a function object, which is truthy, so \<open>if key_value_generator:\<close>
  tests that one was passed. It is modelled as a pure function of the index, and the list
  comprehension applies it to \<open>0, 1, \<dots>\<close> in this order.
\<close>

definition analyze_sharding ::
  "collection \<Rightarrow> string \<Rightarrow> (int \<Rightarrow> 'k) option \<Rightarrow> int option \<Rightarrow>
     py_error + 'k key_value sharding_statistics" where
  "analyze_sharding c skey key_value_generator sample_size =
     (let stats = ShardingStatistics (coll_name c) skey in
      if skey \<notin> set (map fst (coll_fields c)) then Inl (key_not_found skey)
      else
        let doc_count = resolve_doc_count sample_size (document_count c) in
        case key_value_generator of
          Some g \<Rightarrow>
            Inr (add_documents_batch stats (map (\<lambda>i. Key (g i)) (py_range doc_count)))
        | None \<Rightarrow>
            let shard_count = min 10 (max 1 (doc_count div 100));
                shard_values = py_range shard_count in
            (case comprehension (default_key shard_values) (py_range doc_count) of
               Inl e \<Rightarrow> Inl e
             | Inr key_values \<Rightarrow> Inr (add_documents_batch stats (map Bucket key_values))))"

text \<open>
  \<open>key_generators or {}\<close>, then one analysis per key, in the order of the list; an exception
  leaves the loop and the function.
\<close>

fun compare_loop ::
  "'f float_arith \<Rightarrow> collection \<Rightarrow> (string \<times> (int \<Rightarrow> 'k)) list \<Rightarrow>
     ('k key_value, 'f) report list \<Rightarrow> string list \<Rightarrow>
     py_error + ('k key_value, 'f) report list" where
  "compare_loop fl c gens results [] = Inr results"
| "compare_loop fl c gens results (key # keys) =
     (case analyze_sharding c key (map_of gens key) None of
        Inl e \<Rightarrow> Inl e
      | Inr stats \<Rightarrow>
          (case get_statistics fl stats of
             Inl e \<Rightarrow> Inl e
           | Inr r \<Rightarrow> compare_loop fl c gens (results @ [r]) keys))"

definition compare_sharding_strategies ::
  "'f float_arith \<Rightarrow> collection \<Rightarrow> string list \<Rightarrow> (string \<times> (int \<Rightarrow> 'k)) list option \<Rightarrow>
     py_error + ('k key_value, 'f) report list" where
  "compare_sharding_strategies fl c sharding_keys key_generators =
     compare_loop fl c (case key_generators of None \<Rightarrow> [] | Some d \<Rightarrow> d) [] sharding_keys"

section \<open>Sequences of calls and sample inputs\<close>

text \<open>A caller of a \<open>ShardingStatistics\<close> object makes any sequence of these two calls.\<close>

datatype 'a call = Add_document 'a | Add_documents_batch "'a list"

fun run_calls :: "'a sharding_statistics \<Rightarrow> 'a call list \<Rightarrow> 'a sharding_statistics" where
  "run_calls s [] = s"
| "run_calls s (Add_document k # cs) = run_calls (add_document s k) cs"
| "run_calls s (Add_documents_batch ks # cs) = run_calls (add_documents_batch s ks) cs"

definition counts_total :: "'a sharding_statistics \<Rightarrow> bool" where
  "counts_total s = (sum_list (values s) = total_documents s)"

text \<open>
  The schema \<open>{_id: string, name: string with maxLength 10}\<close> as \<open>parse_schema\<close> builds it,
  with three documents.
\<close>

definition demo_collection :: collection where
  "demo_collection =
     \<lparr> coll_name = ''users'',
       coll_fields =
         [(''_id'', Field ''_id'' (JStr ''string'') (Some [(''type'', JStr ''string'')])),
          (''name'', Field ''name'' (JStr ''string'')
                       (Some [(''type'', JStr ''string''), (''maxLength'', JInt 10)]))],
       document_count = 3 \<rparr>"


text \<open>
  The size of a field as the integer that \<open>field_size + 8\<close> adds: the resolved size of the
  loop body, or the \<open>TypeError\<close> of the addition.
\<close>

definition field_bytes :: "field \<Rightarrow> py_error + int" where
  "field_bytes f =
     (case field_size f of
        Inl e \<Rightarrow> Inl e
      | Inr v \<Rightarrow> (case as_int v of None \<Rightarrow> Inl TypeError | Some n \<Rightarrow> Inr n))"

text \<open>An array field whose \<open>items\<close> entry is the empty dictionary, and one with typed items.\<close>

definition tags_any :: field where
  "tags_any = Field ''tags'' (JStr ''array'') (Some [(''type'', JStr ''array''), (''items'', JObj [])])"

definition tags_string :: pydict where
  "tags_string =
     [(''type'', JStr ''array''),
      (''items'', JObj [(''type'', JStr ''string''), (''maxLength'', JInt 30)])]"

definition tags_untyped :: pydict where
  "tags_untyped = [(''type'', JStr ''array''), (''items'', JObj [(''description'', JStr ''tag'')])]"

text \<open>The count a \<open>defaultdict(int)\<close> holds for a key: 0 when the key is missing.\<close>

definition count_of :: "('a \<times> int) list \<Rightarrow> 'a \<Rightarrow> int" where
  "count_of d k = (case map_of d k of None \<Rightarrow> 0 | Some c \<Rightarrow> c)"

text \<open>
  A field whose size resolves to a number: its type is a string; when it is an array with a
  truthy \<open>items\<close> entry, that entry is a dictionary whose \<open>type\<close> is hashable; otherwise,
  when it is a string field and not an object, the length constraint that applies is a
  number.
\<close>

definition sized_field :: "field \<Rightarrow> bool" where
  "sized_field f =
     ((case type f of JStr t \<Rightarrow> True | _ \<Rightarrow> False)
      \<and> (if is_array f \<and> truthy (items f) then
            (case items f of
               JObj kvs \<Rightarrow>
                 (case dict_get kvs ''type'' (JStr ''object'') of
                    JArr xs \<Rightarrow> False
                  | JObj d \<Rightarrow> False
                  | _ \<Rightarrow> True)
             | _ \<Rightarrow> False)
          else if is_object f \<or> type f \<noteq> JStr ''string'' then True
          else if dict_has (properties f) ''maxLength''
            then as_int (dict_get (properties f) ''maxLength'' JNull) \<noteq> None
          else if dict_has (properties f) ''minLength''
            then as_int (dict_get (properties f) ''minLength'' JNull) \<noteq> None
          else True))"

text \<open>
  The collections \<open>parse_schema\<close> builds from a field with the type \<open>["string", "null"]\<close>
  and from an array field whose \<open>items\<close> is a list of schemas.
\<close>

definition union_collection :: collection where
  "union_collection =
     \<lparr> coll_name = ''users'',
       coll_fields =
         [(''nickname'', Field ''nickname'' (JArr [JStr ''string'', JStr ''null''])
                           (Some [(''type'', JArr [JStr ''string'', JStr ''null''])]))],
       document_count = 0 \<rparr>"

definition tuple_collection :: collection where
  "tuple_collection =
     \<lparr> coll_name = ''users'',
       coll_fields =
         [(''point'', Field ''point'' (JStr ''array'')
                        (Some [(''type'', JStr ''array''),
                               (''items'', JArr [JObj [(''type'', JStr ''number'')]])]))],
       document_count = 0 \<rparr>"

section \<open>The counts of a distribution add up to the total\<close>

lemma sum_defaultdict_incr:
  "sum_list (map snd (defaultdict_incr k d)) = sum_list (map snd d) + 1"
  by (induction d) auto

lemma counts_total_add_document: "counts_total s \<Longrightarrow> counts_total (add_document s k)"
  by (simp add: counts_total_def values_def add_document_def sum_defaultdict_incr)

lemma counts_total_batch: "counts_total s \<Longrightarrow> counts_total (add_documents_batch s ks)"
  by (induction ks arbitrary: s) (simp_all add: counts_total_add_document)

lemma counts_total_run: "counts_total s \<Longrightarrow> counts_total (run_calls s cs)"
  by (induction s cs rule: run_calls.induct)
     (simp_all add: counts_total_add_document counts_total_batch)

lemma counts_total_init: "counts_total (ShardingStatistics n k)"
  by (simp add: counts_total_def values_def ShardingStatistics_def)

lemma analyze_sharding_batch:
  "analyze_sharding c k g ss = Inr s \<Longrightarrow>
     \<exists>ks. s = add_documents_batch (ShardingStatistics (coll_name c) k) ks"
  by (auto simp: analyze_sharding_def Let_def split: if_splits option.splits sum.splits)

lemma demo_analysis:
  "analyze_sharding demo_collection ''name'' (Some (\<lambda>i. i mod 2)) (Some 5) =
     Inr \<lparr> collection_name = ''users'', sharding_key = ''name'',
           distribution = [(Key 0, 3), (Key 1, 2)], total_documents = 5 \<rparr>"
  by (simp add: analyze_sharding_def demo_collection_def resolve_doc_count_def py_range_def
      ShardingStatistics_def add_document_def upto.simps)

text \<open>
  Claim C1. After every sequence of \<open>add_document\<close> and \<open>add_documents_batch\<close> calls on a
  new \<open>ShardingStatistics\<close>, and for every result of \<open>analyze_sharding\<close>, the per-key
  counts of the distribution add up to \<open>total_documents\<close>.
\<close>

theorem distribution_sum_total:
  "sum_list (values (run_calls (ShardingStatistics n k) cs))
     = total_documents (run_calls (ShardingStatistics n k) cs)
   \<and> (analyze_sharding c skey g ss = Inr s \<longrightarrow> sum_list (values s) = total_documents s)"
proof
  show "sum_list (values (run_calls (ShardingStatistics n k) cs))
     = total_documents (run_calls (ShardingStatistics n k) cs)"
    using counts_total_run [OF counts_total_init] by (simp add: counts_total_def)
  show "analyze_sharding c skey g ss = Inr s \<longrightarrow> sum_list (values s) = total_documents s"
  proof
    assume "analyze_sharding c skey g ss = Inr s"
    then obtain ks where "s = add_documents_batch (ShardingStatistics (coll_name c) skey) ks"
      using analyze_sharding_batch by blast
    then show "sum_list (values s) = total_documents s"
      using counts_total_batch [OF counts_total_init] by (simp add: counts_total_def)
  qed
qed

theorem distribution_sum_total_witness:
  "analyze_sharding demo_collection ''name'' (Some (\<lambda>i. i mod 2)) (Some 5) =
     Inr \<lparr> collection_name = ''users'', sharding_key = ''name'',
           distribution = [(Key 0, 3), (Key 1, 2)], total_documents = 5 \<rparr>
   \<and> sum_list (values \<lparr> collection_name = ''users'', sharding_key = ''name'',
           distribution = [(Key (0::int), 3), (Key 1, 2)], total_documents = 5 \<rparr>)
     = total_documents \<lparr> collection_name = ''users'', sharding_key = ''name'',
           distribution = [(Key (0::int), 3), (Key 1, 2)], total_documents = 5 \<rparr>"
  using distribution_sum_total [where c = demo_collection and skey = "''name''"
      and g = "Some (\<lambda>i. i mod 2)" and ss = "Some 5"] demo_analysis
  by blast


section \<open>The size of a type\<close>




section \<open>Errors and the empty result\<close>

text \<open>
  Claim C7. When the sharding key is not a key of the collection's field dictionary,
  \<open>analyze_sharding\<close> raises the "not found" \<open>ValueError\<close> and returns no statistics object.
\<close>

theorem missing_key_raises:
  "skey \<notin> set (map fst (coll_fields c)) \<Longrightarrow>
     analyze_sharding c skey g ss = Inl (key_not_found skey)
     \<and> (\<forall>s. analyze_sharding c skey g ss \<noteq> Inr s)"
  by (simp add: analyze_sharding_def)

theorem missing_key_raises_witness:
  "''email'' \<notin> set (map fst (coll_fields demo_collection))
   \<and> analyze_sharding demo_collection ''email'' (Some (\<lambda>i. i mod 2)) (Some 5)
       = Inl (key_not_found ''email'')"
proof -
  have h: "''email'' \<notin> set (map fst (coll_fields demo_collection))"
    by (simp add: demo_collection_def)
  from missing_key_raises [OF h] h show ?thesis by blast
qed

text \<open>
  Claim C8. With \<open>total_documents = 0\<close>, \<open>get_statistics\<close> raises nothing and returns the
  empty result: total 0, no unique shard values and the explanatory \<open>error\<close> entry.
\<close>

theorem empty_statistics:
  "total_documents s = 0 \<Longrightarrow>
     get_statistics fl s =
       Inr (Empty \<lparr> e_collection = collection_name s, e_sharding_key = sharding_key s,
                    e_total_documents = 0, e_unique_shard_values = 0,
                    e_error = ''No documents in collection'' \<rparr>)"
  by (simp add: get_statistics_def)

theorem empty_statistics_witness:
  "\<forall>fl. total_documents (ShardingStatistics ''users'' ''name'' :: int sharding_statistics) = 0
   \<and> get_statistics fl (ShardingStatistics ''users'' ''name'' :: int sharding_statistics) =
       Inr (Empty \<lparr> e_collection = ''users'', e_sharding_key = ''name'',
                    e_total_documents = 0, e_unique_shard_values = 0,
                    e_error = ''No documents in collection'' \<rparr>)"
proof
  fix fl :: "'f float_arith"
  have h: "total_documents (ShardingStatistics ''users'' ''name'' :: int sharding_statistics) = 0"
    by (simp add: ShardingStatistics_def)
  from empty_statistics [OF h, where fl = fl] h
  show "total_documents (ShardingStatistics ''users'' ''name'' :: int sharding_statistics) = 0
   \<and> get_statistics fl (ShardingStatistics ''users'' ''name'' :: int sharding_statistics) =
       Inr (Empty \<lparr> e_collection = ''users'', e_sharding_key = ''name'',
                    e_total_documents = 0, e_unique_shard_values = 0,
                    e_error = ''No documents in collection'' \<rparr>)"
    by (simp add: ShardingStatistics_def)
qed

section \<open>The size of a document\<close>

lemma document_size_loop_sum:
  "document_size_loop t fs =
     (case comprehension field_bytes (map snd fs) of
        Inl e \<Rightarrow> Inl e
      | Inr ns \<Rightarrow> Inr (t + (\<Sum>n\<leftarrow>ns. n + 8)))"
proof (induction fs arbitrary: t)
  case Nil
  show ?case by simp
next
  case (Cons p fs)
  obtain nm f where p: "p = (nm, f)" by (cases p)
  show ?case
    by (simp add: p Cons.IH field_bytes_def add.assoc split: sum.splits option.splits)
qed

lemma type_sizes_get_hashable:
  "(case v of JArr xs \<Rightarrow> False | JObj d \<Rightarrow> False | _ \<Rightarrow> True) \<Longrightarrow> \<exists>n. type_sizes_get v = Inr n"
  by (cases v) simp_all

lemma get_type_size_item:
  assumes "case v of JArr xs \<Rightarrow> False | JObj d \<Rightarrow> False | _ \<Rightarrow> True"
  shows "\<exists>n. get_type_size v None = Inr (JInt n)"
proof -
  obtain n where n: "type_sizes_get v = Inr n"
    using type_sizes_get_hashable [OF assms] by blast
  show ?thesis
    by (simp add: get_type_size_def n dict_has_def)
qed

lemma get_type_size_string_type:
  "\<exists>v. get_type_size (JStr t) ps = Inr v"
  by (simp add: get_type_size_def Let_def)

lemma get_type_size_other:
  "t \<noteq> ''string'' \<Longrightarrow> \<exists>n. get_type_size (JStr t) ps = Inr (JInt n)"
  by (simp add: get_type_size_def Let_def)

lemma sized_field_bytes:
  assumes "sized_field f"
  shows "\<exists>n. field_bytes f = Inr n"
proof -
  from assms obtain t where t: "type f = JStr t"
    by (auto simp: sized_field_def split: json.splits)
  obtain v0 where v0: "get_type_size (JStr t) (Some (properties f)) = Inr v0"
    using get_type_size_string_type by blast
  show ?thesis
  proof (cases "is_array f \<and> truthy (items f)")
    case True
    with assms obtain kvs where kvs: "items f = JObj kvs"
      "case dict_get kvs ''type'' (JStr ''object'') of JArr xs \<Rightarrow> False | JObj d \<Rightarrow> False | _ \<Rightarrow> True"
      by (auto simp: sized_field_def split: json.splits)
    obtain n where n: "get_type_size (dict_get kvs ''type'' (JStr ''object'')) None = Inr (JInt n)"
      using get_type_size_item [OF kvs(2)] by blast
    show ?thesis
      using True by (simp add: field_bytes_def field_size_def t v0 kvs(1) n)
  next
    case False
    show ?thesis
    proof (cases "is_object f")
      case True
      then show ?thesis using False by (auto simp: field_bytes_def field_size_def t v0)
    next
      case no_obj: False
      show ?thesis
      proof (cases "t = ''string''")
        case True
        have "\<exists>n. as_int v0 = Some n"
          using assms False no_obj v0 True
          by (auto simp: sized_field_def t get_type_size_def TYPE_SIZES_def split: if_splits)
        then show ?thesis
          using False no_obj by (auto simp: field_bytes_def field_size_def t v0)
      next
        case ns: False
        obtain n where "get_type_size (JStr t) (Some (properties f)) = Inr (JInt n)"
          using get_type_size_other [OF ns] by blast
        then show ?thesis
          using False no_obj by (auto simp: field_bytes_def field_size_def t)
      qed
    qed
  qed
qed

lemma sized_fields_comprehension:
  "\<forall>p \<in> set fs. sized_field (snd p) \<Longrightarrow>
     \<exists>ns. comprehension field_bytes (map snd fs) = Inr ns
        \<and> list_all2 (\<lambda>p n. field_bytes (snd p) = Inr n) fs ns"
proof (induction fs)
  case Nil
  show ?case by simp
next
  case (Cons p fs)
  then obtain n where n: "field_bytes (snd p) = Inr n"
    using sized_field_bytes by auto
  from Cons obtain ns where ns: "comprehension field_bytes (map snd fs) = Inr ns"
    "list_all2 (\<lambda>p n. field_bytes (snd p) = Inr n) fs ns" by auto
  have "comprehension field_bytes (map snd (p # fs)) = Inr (n # ns)"
    by (simp add: n ns(1))
  moreover have "list_all2 (\<lambda>p n. field_bytes (snd p) = Inr n) (p # fs) (n # ns)"
    by (simp add: n ns(2))
  ultimately show ?case by blast
qed

text \<open>
  A field whose type is the list \<open>["string", "null"]\<close> raises \<open>TypeError\<close> in the table
  lookup, and an array field whose \<open>items\<close> is a list raises \<open>AttributeError\<close>: these
  field maps have no document size.
\<close>

theorem document_size_raises_counterexample:
  "calculate_document_size union_collection = Inl TypeError
   \<and> calculate_document_size tuple_collection = Inl AttributeError"
  by (simp add: calculate_document_size_def union_collection_def tuple_collection_def
      field_size_def Field_def get_type_size_def dict_get_def dict_has_def TYPE_SIZES_def)

text \<open>
  Claim C6, amended. When every field of the field map has a size that resolves to a number
  (\<open>sized_field\<close>), the document size is returned and is 24 plus, for every field, its
  resolved size and 8; for every field map, a size that is returned is this sum, and the
  first field that raises makes the document raise. The schema
  \<open>{_id: string, name: string with maxLength 10}\<close> gives 100.
\<close>

theorem document_size_formula:
  "((\<forall>p \<in> set (coll_fields c). sized_field (snd p)) \<longrightarrow>
      (\<exists>ns. list_all2 (\<lambda>p n. field_bytes (snd p) = Inr n) (coll_fields c) ns
           \<and> calculate_document_size c = Inr (24 + (\<Sum>n\<leftarrow>ns. n + 8))))
   \<and> calculate_document_size c =
       (case comprehension field_bytes (map snd (coll_fields c)) of
          Inl e \<Rightarrow> Inl e
        | Inr ns \<Rightarrow> Inr (24 + (\<Sum>n\<leftarrow>ns. n + 8)))
   \<and> calculate_document_size demo_collection = Inr 100"
proof (intro conjI impI)
  have eq: "calculate_document_size c =
       (case comprehension field_bytes (map snd (coll_fields c)) of
          Inl e \<Rightarrow> Inl e
        | Inr ns \<Rightarrow> Inr (24 + (\<Sum>n\<leftarrow>ns. n + 8)))"
    by (simp add: calculate_document_size_def document_size_loop_sum)
  then show "calculate_document_size c =
       (case comprehension field_bytes (map snd (coll_fields c)) of
          Inl e \<Rightarrow> Inl e
        | Inr ns \<Rightarrow> Inr (24 + (\<Sum>n\<leftarrow>ns. n + 8)))" .
  show "calculate_document_size demo_collection = Inr 100"
    by (simp add: calculate_document_size_def demo_collection_def field_size_def Field_def
        get_type_size_def dict_get_def dict_has_def TYPE_SIZES_def)
  assume "\<forall>p \<in> set (coll_fields c). sized_field (snd p)"
  then obtain ns where ns: "comprehension field_bytes (map snd (coll_fields c)) = Inr ns"
    "list_all2 (\<lambda>p n. field_bytes (snd p) = Inr n) (coll_fields c) ns"
    using sized_fields_comprehension by blast
  have "calculate_document_size c = Inr (24 + (\<Sum>n\<leftarrow>ns. n + 8))"
    by (simp add: eq ns(1))
  with ns(2) show "\<exists>ns. list_all2 (\<lambda>p n. field_bytes (snd p) = Inr n) (coll_fields c) ns
           \<and> calculate_document_size c = Inr (24 + (\<Sum>n\<leftarrow>ns. n + 8))"
    by blast
qed

theorem document_size_formula_witness:
  "sized_field (Field ''_id'' (JStr ''string'') (Some [(''type'', JStr ''string'')]))
   \<and> sized_field (Field ''name'' (JStr ''string'')
                    (Some [(''type'', JStr ''string''), (''maxLength'', JInt 10)]))
   \<and> (\<exists>ns. list_all2 (\<lambda>p n. field_bytes (snd p) = Inr n) (coll_fields demo_collection) ns
          \<and> calculate_document_size demo_collection = Inr (24 + (\<Sum>n\<leftarrow>ns. n + 8)))
   \<and> calculate_document_size demo_collection = Inr 100"
proof -
  have a: "sized_field (Field ''_id'' (JStr ''string'') (Some [(''type'', JStr ''string'')]))"
    by (simp add: sized_field_def Field_def dict_get_def dict_has_def)
  have b: "sized_field (Field ''name'' (JStr ''string'')
                    (Some [(''type'', JStr ''string''), (''maxLength'', JInt 10)]))"
    by (simp add: sized_field_def Field_def dict_get_def dict_has_def)
  have h: "\<forall>p \<in> set (coll_fields demo_collection). sized_field (snd p)"
    using a b by (simp add: demo_collection_def)
  from document_size_formula [where c = demo_collection] h
  have "(\<exists>ns. list_all2 (\<lambda>p n. field_bytes (snd p) = Inr n) (coll_fields demo_collection) ns
          \<and> calculate_document_size demo_collection = Inr (24 + (\<Sum>n\<leftarrow>ns. n + 8)))
     \<and> calculate_document_size demo_collection = Inr 100"
    by blast
  with a b show ?thesis by blast
qed

section \<open>Array fields\<close>

lemma get_type_size_no_props:
  "get_type_size (JStr t) None = Inr (JInt (case map_of TYPE_SIZES t of None \<Rightarrow> 50 | Some n \<Rightarrow> n))"
  by (simp add: get_type_size_def dict_has_def)

lemma get_type_size_array: "get_type_size (JStr ''array'') ps = Inr (JInt 16)"
  by (simp add: get_type_size_def TYPE_SIZES_def)

text \<open>
  An array field that declares the empty items dictionary \<open>{}\<close> is not sized by its
  items: the dictionary is falsy, and the field keeps 16 bytes, not 136.
\<close>

theorem array_empty_items_counterexample:
  "is_array tags_any \<and> dict_has (properties tags_any) ''items'' \<and> items tags_any = JObj []
   \<and> field_size tags_any = Inr (JInt 16) \<and> field_size tags_any \<noteq> Inr (JInt (24 * 5 + 16))"
  by (simp add: tags_any_def Field_def dict_get_def dict_has_def field_size_def get_type_size_array)

text \<open>
  Claim C10, amended. An array field is sized by its items when \<open>items\<close> is truthy. For a
  non-empty items dictionary whose \<open>type\<close> is a string the size is the table value of that
  type times 5 plus 16, whatever else the dictionary holds; without a \<open>type\<close> entry it is
  \<open>24 * 5 + 16 = 136\<close>. With no \<open>items\<close> entry, or a falsy one such as the empty dictionary,
  the field keeps the 16 bytes of the table.
\<close>

theorem array_field_size:
  "(map_of ps ''items'' = Some (JObj kvs) \<and> kvs \<noteq> [] \<and> map_of kvs ''type'' = Some (JStr t)
      \<longrightarrow> field_size (Field nm (JStr ''array'') (Some ps))
            = Inr (JInt ((case map_of TYPE_SIZES t of None \<Rightarrow> 50 | Some n \<Rightarrow> n) * 5 + 16)))
   \<and> (map_of qs ''items'' = Some (JObj kvs') \<and> kvs' \<noteq> [] \<and> map_of kvs' ''type'' = None
      \<longrightarrow> field_size (Field nm (JStr ''array'') (Some qs)) = Inr (JInt 136))
   \<and> (\<not> truthy (dict_get rs ''items'' JNull)
      \<longrightarrow> field_size (Field nm (JStr ''array'') (Some rs)) = Inr (JInt 16))"
proof (intro conjI impI)
  assume a: "map_of ps ''items'' = Some (JObj kvs) \<and> kvs \<noteq> [] \<and> map_of kvs ''type'' = Some (JStr t)"
  then show "field_size (Field nm (JStr ''array'') (Some ps))
            = Inr (JInt ((case map_of TYPE_SIZES t of None \<Rightarrow> 50 | Some n \<Rightarrow> n) * 5 + 16))"
    by (simp add: field_size_def Field_def dict_get_def get_type_size_array get_type_size_no_props)
next
  assume a: "map_of qs ''items'' = Some (JObj kvs') \<and> kvs' \<noteq> [] \<and> map_of kvs' ''type'' = None"
  then show "field_size (Field nm (JStr ''array'') (Some qs)) = Inr (JInt 136)"
    by (simp add: field_size_def Field_def dict_get_def get_type_size_array get_type_size_no_props
        TYPE_SIZES_def)
next
  assume "\<not> truthy (dict_get rs ''items'' JNull)"
  then show "field_size (Field nm (JStr ''array'') (Some rs)) = Inr (JInt 16)"
    by (simp add: field_size_def Field_def get_type_size_array)
qed

theorem array_field_size_witness:
  "map_of tags_string ''items'' = Some (JObj [(''type'', JStr ''string''), (''maxLength'', JInt 30)])
   \<and> field_size (Field ''tags'' (JStr ''array'') (Some tags_string)) = Inr (JInt 266)
   \<and> map_of tags_untyped ''items'' = Some (JObj [(''description'', JStr ''tag'')])
   \<and> field_size (Field ''tags'' (JStr ''array'') (Some tags_untyped)) = Inr (JInt 136)
   \<and> \<not> truthy (dict_get [(''type'', JStr ''array'')] ''items'' JNull)
   \<and> field_size (Field ''tags'' (JStr ''array'') (Some [(''type'', JStr ''array'')])) = Inr (JInt 16)"
proof -
  have a: "map_of tags_string ''items'' = Some (JObj [(''type'', JStr ''string''), (''maxLength'', JInt 30)])
      \<and> [(''type'', JStr ''string''), (''maxLength'', JInt 30)] \<noteq> []
      \<and> map_of [(''type'', JStr ''string''), (''maxLength'', JInt 30)] ''type'' = Some (JStr ''string'')"
    by (simp add: tags_string_def)
  have b: "map_of tags_untyped ''items'' = Some (JObj [(''description'', JStr ''tag'')])
      \<and> [(''description'', JStr ''tag'')] \<noteq> []
      \<and> map_of [(''description'', JStr ''tag'')] ''type'' = None"
    by (simp add: tags_untyped_def)
  have c: "\<not> truthy (dict_get [(''type'', JStr ''array'')] ''items'' JNull)"
    by (simp add: dict_get_def)
  have d: "(case map_of TYPE_SIZES ''string'' of None \<Rightarrow> 50 | Some n \<Rightarrow> n) * 5 + 16 = (266::int)"
    by (simp add: TYPE_SIZES_def)
  from array_field_size [where ps = tags_string and qs = tags_untyped
      and rs = "[(''type'', JStr ''array'')]" and nm = "''tags''"
      and kvs = "[(''type'', JStr ''string''), (''maxLength'', JInt 30)]" and t = "''string''"
      and kvs' = "[(''description'', JStr ''tag'')]"] a b c
  have "field_size (Field ''tags'' (JStr ''array'') (Some tags_string))
          = Inr (JInt ((case map_of TYPE_SIZES ''string'' of None \<Rightarrow> 50 | Some n \<Rightarrow> n) * 5 + 16))
      \<and> field_size (Field ''tags'' (JStr ''array'') (Some tags_untyped)) = Inr (JInt 136)
      \<and> field_size (Field ''tags'' (JStr ''array'') (Some [(''type'', JStr ''array'')])) = Inr (JInt 16)"
    by blast
  with a b c d show ?thesis by simp
qed

section \<open>The number of simulated documents\<close>

text \<open>
  Claim C3. With \<open>sample_size = 0\<close> and three configured documents, \<open>analyze_sharding\<close>
  simulates three documents, calling the generator at 0, 1 and 2, not zero documents.
\<close>

theorem sample_size_zero_analysis:
  "analyze_sharding demo_collection ''name'' (Some (\<lambda>i. i)) (Some 0) =
     Inr \<lparr> collection_name = ''users'', sharding_key = ''name'',
           distribution = [(Key 0, 1), (Key 1, 1), (Key 2, 1)], total_documents = 3 \<rparr>"
  by (simp add: analyze_sharding_def demo_collection_def resolve_doc_count_def py_range_def
      ShardingStatistics_def add_document_def upto.simps)

section \<open>The default distribution\<close>

lemma py_range_nat: "py_range n = map int [0..<nat n]"
proof (cases "0 \<le> n")
  case True
  then obtain m where n: "n = int m" using nonneg_int_cases by blast
  have "[0..int m - 1] = map int [0..<m]"
  proof (induction m)
    case 0
    show ?case by simp
  next
    case (Suc m)
    have "[0..int (Suc m) - 1] = [0..int m - 1] @ [int m]"
      using upto_rec2 [of 0 "int m"] by simp
    then show ?case using Suc by simp
  qed
  then show ?thesis by (simp add: py_range_def n)
next
  case False
  then show ?thesis by (simp add: py_range_def)
qed

lemma length_py_range: "length (py_range n) = nat n"
  by (simp add: py_range_nat)

lemma default_key_in_range:
  assumes "0 < b"
  shows "default_key (py_range b) i = Inr (i mod b)"
proof -
  have m: "0 \<le> i mod b" "i mod b < b" using assms by simp_all
  have "nat (i mod b) < nat b" using m by simp
  then have "py_range b ! nat (i mod b) = i mod b"
    using m by (simp add: py_range_nat)
  then show ?thesis
    using assms m by (simp add: default_key_def list_index_def length_py_range)
qed

lemma comprehension_total: "(\<And>x. f x = Inr (g x)) \<Longrightarrow> comprehension f xs = Inr (map g xs)"
  by (induction xs) simp_all

lemma shard_count_pos: "0 < min 10 (max 1 (n div 100 :: int))"
  by simp

lemma analyze_sharding_default:
  assumes "skey \<in> set (map fst (coll_fields c))"
  shows "analyze_sharding c skey None ss =
     Inr (add_documents_batch (ShardingStatistics (coll_name c) skey)
            (map (\<lambda>i. Bucket (i mod min 10 (max 1 (resolve_doc_count ss (document_count c) div 100))))
               (py_range (resolve_doc_count ss (document_count c)))))"
proof -
  let ?n = "resolve_doc_count ss (document_count c)"
  let ?b = "min 10 (max 1 (?n div 100))"
  have "comprehension (default_key (py_range ?b)) (py_range ?n) = Inr (map (\<lambda>i. i mod ?b) (py_range ?n))"
    by (rule comprehension_total) (rule default_key_in_range [OF shard_count_pos])
  then show ?thesis
    using assms by (simp add: analyze_sharding_def Let_def comp_def)
qed

lemma analyze_sharding_returns:
  assumes "skey \<in> set (map fst (coll_fields c))"
  shows "\<exists>ks. analyze_sharding c skey g ss =
     Inr (add_documents_batch (ShardingStatistics (coll_name c) skey) ks)"
proof (cases g)
  case None
  then show ?thesis using analyze_sharding_default [OF assms] by blast
next
  case (Some f)
  then have "analyze_sharding c skey g ss =
     Inr (add_documents_batch (ShardingStatistics (coll_name c) skey)
            (map (\<lambda>i. Key (f i)) (py_range (resolve_doc_count ss (document_count c)))))"
    using assms by (simp add: analyze_sharding_def Let_def)
  then show ?thesis by blast
qed

section \<open>Statistics of a reachable object\<close>

lemma defaultdict_incr_not_Nil: "defaultdict_incr k d \<noteq> []"
  by (cases d) (auto split: if_splits)

lemma batch_nonempty:
  "total_documents s \<noteq> 0 \<longrightarrow> distribution s \<noteq> [] \<Longrightarrow>
     total_documents (add_documents_batch s ks) \<noteq> 0 \<longrightarrow> distribution (add_documents_batch s ks) \<noteq> []"
proof (induction ks arbitrary: s)
  case Nil
  then show ?case by simp
next
  case (Cons k ks)
  have "distribution (add_document s k) \<noteq> []"
    by (simp add: add_document_def defaultdict_incr_not_Nil)
  then show ?case using Cons.IH [of "add_document s k"] by simp
qed

lemma get_statistics_batch_returns:
  "\<exists>r. get_statistics fl (add_documents_batch (ShardingStatistics n k) ks) = Inr r"
proof -
  let ?s = "add_documents_batch (ShardingStatistics n k) ks"
  have "total_documents ?s \<noteq> 0 \<longrightarrow> distribution ?s \<noteq> []"
    by (rule batch_nonempty) (simp add: ShardingStatistics_def)
  then show ?thesis by (simp add: get_statistics_def values_def)
qed

section \<open>Comparing sharding keys\<close>

lemma compare_loop_reports:
  assumes "\<forall>k \<in> set keys. k \<in> set (map fst (coll_fields c))"
  shows "\<exists>rs. compare_loop fl c gens acc keys = Inr (acc @ rs)
     \<and> list_all2 (\<lambda>k r. \<exists>stats. analyze_sharding c k (map_of gens k) None = Inr stats
                            \<and> get_statistics fl stats = Inr r) keys rs"
  using assms
proof (induction keys arbitrary: acc)
  case Nil
  then show ?case by simp
next
  case (Cons k keys)
  from Cons.prems have "k \<in> set (map fst (coll_fields c))" by simp
  then obtain ks where st: "analyze_sharding c k (map_of gens k) None
      = Inr (add_documents_batch (ShardingStatistics (coll_name c) k) ks)"
    using analyze_sharding_returns by blast
  obtain r where r: "get_statistics fl (add_documents_batch (ShardingStatistics (coll_name c) k) ks) = Inr r"
    using get_statistics_batch_returns by blast
  from Cons.prems have "\<forall>k \<in> set keys. k \<in> set (map fst (coll_fields c))" by simp
  from Cons.IH [OF this, where acc = "acc @ [r]"] obtain rs where
    rs: "compare_loop fl c gens (acc @ [r]) keys = Inr ((acc @ [r]) @ rs)"
      "list_all2 (\<lambda>k r. \<exists>stats. analyze_sharding c k (map_of gens k) None = Inr stats
                            \<and> get_statistics fl stats = Inr r) keys rs"
    by blast
  have "compare_loop fl c gens acc (k # keys) = Inr (acc @ (r # rs))"
    using st r rs(1) by simp
  moreover have "list_all2 (\<lambda>k r. \<exists>stats. analyze_sharding c k (map_of gens k) None = Inr stats
                            \<and> get_statistics fl stats = Inr r) (k # keys) (r # rs)"
    using st r rs(2) by simp
  ultimately show ?case by blast
qed

text \<open>
  Claim C9. When every key of the list is a field of the collection,
  \<open>compare_sharding_strategies\<close> returns one report per key, in the order of the list, and
  each report is the \<open>get_statistics\<close> of \<open>analyze_sharding\<close> on that key with the key's
  generator and no sample size.
\<close>

theorem compare_reports_per_key:
  assumes "\<forall>k \<in> set sharding_keys. k \<in> set (map fst (coll_fields c))"
  shows "\<exists>rs. compare_sharding_strategies fl c sharding_keys key_generators = Inr rs
     \<and> length rs = length sharding_keys
     \<and> (\<forall>i < length sharding_keys.
           \<exists>stats. analyze_sharding c (sharding_keys ! i)
                      (map_of (case key_generators of None \<Rightarrow> [] | Some d \<Rightarrow> d) (sharding_keys ! i))
                      None = Inr stats
                  \<and> get_statistics fl stats = Inr (rs ! i))"
proof -
  let ?gens = "case key_generators of None \<Rightarrow> [] | Some d \<Rightarrow> d"
  from compare_loop_reports [OF assms, where gens = ?gens and acc = "[]" and fl = fl]
  obtain rs where
    rs: "compare_loop fl c ?gens [] sharding_keys = Inr rs"
      "list_all2 (\<lambda>k r. \<exists>stats. analyze_sharding c k (map_of ?gens k) None = Inr stats
                            \<and> get_statistics fl stats = Inr r) sharding_keys rs"
    by auto
  from rs(2) have "length rs = length sharding_keys"
    by (simp add: list_all2_lengthD)
  moreover from rs(2) have "\<forall>i < length sharding_keys.
           \<exists>stats. analyze_sharding c (sharding_keys ! i) (map_of ?gens (sharding_keys ! i)) None
                      = Inr stats
                  \<and> get_statistics fl stats = Inr (rs ! i)"
    by (simp add: list_all2_conv_all_nth)
  ultimately show ?thesis
    using rs(1) by (simp add: compare_sharding_strategies_def)
qed

theorem compare_reports_per_key_witness:
  "\<forall>fl. ''name'' \<in> set (map fst (coll_fields demo_collection))
   \<and> ''_id'' \<in> set (map fst (coll_fields demo_collection))
   \<and> (\<exists>rs. compare_sharding_strategies fl demo_collection [''name'', ''_id'']
               (Some [(''name'', \<lambda>i. i mod 2)]) = Inr rs
          \<and> length rs = 2)"
proof
  fix fl :: "'f float_arith"
  have h: "\<forall>k \<in> set [''name'', ''_id'']. k \<in> set (map fst (coll_fields demo_collection))"
    by (simp add: demo_collection_def)
  from compare_reports_per_key [OF h, where fl = fl
      and key_generators = "Some [(''name'', \<lambda>i. i mod 2)]"]
  obtain rs where "compare_sharding_strategies fl demo_collection [''name'', ''_id'']
               (Some [(''name'', \<lambda>i. i mod 2)]) = Inr rs" "length rs = length [''name'', ''_id'']"
    by blast
  then have "\<exists>rs. compare_sharding_strategies fl demo_collection [''name'', ''_id'']
               (Some [(''name'', \<lambda>i. i mod 2)]) = Inr rs \<and> length rs = 2"
    by simp
  with h show "''name'' \<in> set (map fst (coll_fields demo_collection))
   \<and> ''_id'' \<in> set (map fst (coll_fields demo_collection))
   \<and> (\<exists>rs. compare_sharding_strategies fl demo_collection [''name'', ''_id'']
               (Some [(''name'', \<lambda>i. i mod 2)]) = Inr rs
          \<and> length rs = 2)"
    by simp
qed

section \<open>The contents of a distribution\<close>

lemma defaultdict_incr_keys:
  "map fst (defaultdict_incr k d) = (if k \<in> set (map fst d) then map fst d else map fst d @ [k])"
proof (induction d)
  case Nil
  show ?case by simp
next
  case (Cons p d)
  obtain k' c where p: "p = (k', c)" by (cases p)
  show ?case
  proof (cases "k = k'")
    case True
    then show ?thesis by (simp add: p)
  next
    case False
    then show ?thesis using Cons.IH by (simp add: p)
  qed
qed

lemma defaultdict_incr_distinct:
  "distinct (map fst d) \<Longrightarrow> distinct (map fst (defaultdict_incr k d))"
  by (simp add: defaultdict_incr_keys)

lemma defaultdict_incr_key_set:
  "set (map fst (defaultdict_incr k d)) = insert k (set (map fst d))"
  by (auto simp: defaultdict_incr_keys)

lemma defaultdict_incr_count:
  "count_of (defaultdict_incr k d) k' = count_of d k' + (if k' = k then 1 else 0)"
  by (induction d) (auto simp: count_of_def)

lemma batch_distinct:
  "distinct (map fst (distribution s)) \<Longrightarrow>
     distinct (map fst (distribution (add_documents_batch s ks)))"
  by (induction ks arbitrary: s) (simp_all add: add_document_def defaultdict_incr_distinct)

lemma batch_key_set:
  "set (map fst (distribution (add_documents_batch s ks)))
     = set (map fst (distribution s)) \<union> set ks"
proof (induction ks arbitrary: s)
  case Nil
  show ?case by simp
next
  case (Cons k ks)
  have "set (map fst (distribution (add_document s k))) = insert k (set (map fst (distribution s)))"
    using defaultdict_incr_key_set [of k "distribution s"] by (simp add: add_document_def)
  then show ?case using Cons.IH [of "add_document s k"] by auto
qed

lemma batch_count:
  "count_of (distribution (add_documents_batch s ks)) k
     = count_of (distribution s) k + int (count_list ks k)"
proof (induction ks arbitrary: s)
  case Nil
  show ?case by simp
next
  case (Cons a ks)
  have "count_of (distribution (add_document s a)) k
      = count_of (distribution s) k + (if k = a then 1 else 0)"
    by (simp add: add_document_def defaultdict_incr_count)
  then show ?case using Cons.IH [of "add_document s a"] by simp
qed

lemma entry_count:
  "distinct (map fst d) \<Longrightarrow> (k, v) \<in> set d \<Longrightarrow> count_of d k = v"
  by (simp add: count_of_def)

lemma new_batch_values:
  assumes "x \<in> set (values (add_documents_batch (ShardingStatistics n sk) ks))"
  shows "\<exists>k \<in> set ks. x = int (count_list ks k)"
proof -
  let ?s = "add_documents_batch (ShardingStatistics n sk) ks"
  from assms obtain k where kx: "(k, x) \<in> set (distribution ?s)"
    by (auto simp: values_def)
  have d: "distinct (map fst (distribution ?s))"
    by (rule batch_distinct) (simp add: ShardingStatistics_def)
  have "set (map fst (distribution ?s)) = set ks"
    unfolding batch_key_set by (simp add: ShardingStatistics_def)
  moreover have "k \<in> set (map fst (distribution ?s))" using kx by force
  ultimately have k: "k \<in> set ks" by simp
  have "count_of (distribution (ShardingStatistics n sk :: 'a sharding_statistics)) k = 0"
    by (simp add: ShardingStatistics_def count_of_def)
  then have "count_of (distribution ?s) k = int (count_list ks k)"
    using batch_count [of "ShardingStatistics n sk" ks k] by simp
  then have "x = int (count_list ks k)" using entry_count [OF d kx] by simp
  then show ?thesis using k by blast
qed

section \<open>Round-robin buckets\<close>

lemma count_round_robin:
  assumes "0 < b" "j < b"
  shows "count_list (map (\<lambda>i. i mod b) [0..<n]) j = n div b + (if j < n mod b then 1 else 0)"
proof (induction n)
  case 0
  show ?case by simp
next
  case (Suc n)
  show ?case
    using assms Suc by (auto simp: mod_Suc div_Suc)
qed

lemma round_robin_set:
  assumes "0 < b" "b \<le> n"
  shows "set (map (\<lambda>i. i mod b) [0..<n]) = {0..<b::nat}"
proof
  show "set (map (\<lambda>i. i mod b) [0..<n]) \<subseteq> {0..<b}" using assms by auto
  show "{0..<b} \<subseteq> set (map (\<lambda>i. i mod b) [0..<n])"
  proof
    fix j assume "j \<in> {0..<b}"
    then have "j < n" "j mod b = j" using assms by auto
    then show "j \<in> set (map (\<lambda>i. i mod b) [0..<n])" by force
  qed
qed

lemma bucket_keys_nat:
  assumes "0 < b"
  shows "map (\<lambda>i. Bucket (i mod b)) (py_range n)
     = map (\<lambda>j. Bucket (int j)) (map (\<lambda>i. i mod nat b) [0..<nat n])"
proof -
  have "int i mod b = int (i mod nat b)" for i
    using assms by (simp add: zmod_int)
  then show ?thesis by (simp add: py_range_nat comp_def)
qed

lemma count_list_Bucket:
  "count_list (map (\<lambda>j. Bucket (int j)) xs) (Bucket (int j)) = count_list xs j"
  by (induction xs) auto

lemma shard_count_le:
  "0 < n \<Longrightarrow> min 10 (max 1 (n div 100)) \<le> (n::int)"
  by linarith

lemma int_image_upto: "int ` {0..<b} = {0..int b - 1}"
proof (rule set_eqI)
  fix x
  show "x \<in> int ` {0..<b} \<longleftrightarrow> x \<in> {0..int b - 1}"
  proof
    assume "x \<in> int ` {0..<b}"
    then show "x \<in> {0..int b - 1}" by auto
  next
    assume a: "x \<in> {0..int b - 1}"
    show "x \<in> int ` {0..<b}"
      by (rule image_eqI [where x = "nat x"]) (use a in auto)
  qed
qed

lemma round_robin_batch:
  fixes n b :: nat and cn sk :: string
  assumes "0 < b" "b \<le> n"
  defines "ks \<equiv> map (\<lambda>j. Bucket (int j)) (map (\<lambda>i. i mod b) [0..<n])"
  defines "s \<equiv> add_documents_batch (ShardingStatistics cn sk) ks"
  shows "distinct (map fst (distribution s))"
    and "set (map fst (distribution s)) = Bucket ` {0..int b - 1}"
    and "unique_shards s = b"
    and "\<forall>x \<in> set (values s). \<forall>y \<in> set (values s). \<bar>x - y\<bar> \<le> 1"
proof -
  show d: "distinct (map fst (distribution s))"
    unfolding s_def by (rule batch_distinct) (simp add: ShardingStatistics_def)
  have "set ks = (\<lambda>j. Bucket (int j)) ` set (map (\<lambda>i. i mod b) [0..<n])"
    unfolding ks_def by (rule set_map)
  then have sks: "set ks = (\<lambda>j. Bucket (int j)) ` {0..<b}"
    by (simp only: round_robin_set [OF assms(1,2)])
  have "set (map fst (distribution s)) = set (map fst (distribution (ShardingStatistics cn sk))) \<union> set ks"
    unfolding s_def by (rule batch_key_set)
  then have keys: "set (map fst (distribution s)) = (\<lambda>j. Bucket (int j)) ` {0..<b}"
    by (simp add: ShardingStatistics_def sks)
  show "set (map fst (distribution s)) = Bucket ` {0..int b - 1}"
    unfolding keys int_image_upto [symmetric] by (rule image_image [symmetric])
  have "card (set (map fst (distribution s))) = b"
    unfolding keys by (simp add: card_image inj_on_def)
  then show "unique_shards s = b"
    using distinct_card [OF d] by (simp add: unique_shards_def)
  have range: "x = int (n div b) \<or> x = int (n div b) + 1" if "x \<in> set (values s)" for x
  proof -
    from that obtain k where k: "k \<in> set ks" "x = int (count_list ks k)"
      unfolding s_def using new_batch_values by blast
    from k(1) obtain j where j: "j < b" "k = Bucket (int j)"
      unfolding sks by auto
    have "count_list ks k = n div b + (if j < n mod b then 1 else 0)"
      unfolding ks_def j(2) count_list_Bucket by (rule count_round_robin [OF assms(1) j(1)])
    then show ?thesis using k(2) by simp
  qed
  show "\<forall>x \<in> set (values s). \<forall>y \<in> set (values s). \<bar>x - y\<bar> \<le> 1"
  proof (intro ballI)
    fix x y assume "x \<in> set (values s)" "y \<in> set (values s)"
    then have "x = int (n div b) \<or> x = int (n div b) + 1" "y = int (n div b) \<or> y = int (n div b) + 1"
      using range by blast+
    then show "\<bar>x - y\<bar> \<le> 1" by linarith
  qed
qed

text \<open>
  Claim C4. Without a generator and with a positive document count \<open>N\<close>,
  \<open>analyze_sharding\<close> returns the object filled with the keys \<open>i mod bucketCount\<close> for
  \<open>i = 0, \<dots>, N - 1\<close>, where \<open>bucketCount = min(10, max(1, N // 100))\<close>; its distribution has
  exactly the keys \<open>0, \<dots>, bucketCount - 1\<close>, and two of its counts differ by at most 1.
\<close>

theorem default_distribution:
  assumes "skey \<in> set (map fst (coll_fields c))"
    and "N = resolve_doc_count ss (document_count c)"
    and "0 < N"
    and "bucketCount = min 10 (max 1 (N div 100))"
  shows "\<exists>s. analyze_sharding c skey None ss = Inr s
     \<and> s = add_documents_batch (ShardingStatistics (coll_name c) skey)
              (map (\<lambda>i. Bucket (i mod bucketCount)) (py_range N))
     \<and> distinct (map fst (distribution s))
     \<and> set (map fst (distribution s)) = Bucket ` {0..bucketCount - 1}
     \<and> int (unique_shards s) = bucketCount
     \<and> (\<forall>x \<in> set (values s). \<forall>y \<in> set (values s). \<bar>x - y\<bar> \<le> 1)"
proof -
  let ?ks = "map (\<lambda>i. Bucket (i mod bucketCount)) (py_range N)"
  let ?s = "add_documents_batch (ShardingStatistics (coll_name c) skey) ?ks
              :: 'a key_value sharding_statistics"
  have b: "0 < bucketCount" "bucketCount \<le> N"
    using assms(3,4) shard_count_le [of N] by simp_all
  have nb: "0 < nat bucketCount" "nat bucketCount \<le> nat N" "int (nat bucketCount) = bucketCount"
    using b by simp_all
  have ks: "?ks = map (\<lambda>j. Bucket (int j)) (map (\<lambda>i. i mod nat bucketCount) [0..<nat N])"
    by (rule bucket_keys_nat [OF b(1)])
  have run: "analyze_sharding c skey None ss = Inr ?s"
    using analyze_sharding_default [OF assms(1), of ss] assms(2,4) by simp
  have "distinct (map fst (distribution ?s))"
    unfolding ks by (rule round_robin_batch(1) [OF nb(1,2)])
  moreover have "set (map fst (distribution ?s)) = Bucket ` {0..int (nat bucketCount) - 1}"
    unfolding ks by (rule round_robin_batch(2) [OF nb(1,2)])
  then have "set (map fst (distribution ?s)) = Bucket ` {0..bucketCount - 1}"
    by (simp only: nb(3))
  moreover have "unique_shards ?s = nat bucketCount"
    unfolding ks by (rule round_robin_batch(3) [OF nb(1,2)])
  then have "int (unique_shards ?s) = bucketCount"
    by (simp only: nb(3))
  moreover have "\<forall>x \<in> set (values ?s). \<forall>y \<in> set (values ?s). \<bar>x - y\<bar> \<le> 1"
    unfolding ks by (rule round_robin_batch(4) [OF nb(1,2)])
  ultimately show ?thesis using run by blast
qed

theorem default_distribution_witness:
  "''name'' \<in> set (map fst (coll_fields demo_collection))
   \<and> (250::int) = resolve_doc_count (Some 250) (document_count demo_collection)
   \<and> (0::int) < 250
   \<and> (2::int) = min 10 (max 1 (250 div 100))
   \<and> (\<exists>s. analyze_sharding demo_collection ''name'' (None :: (int \<Rightarrow> int) option) (Some 250) = Inr s
          \<and> int (unique_shards s) = 2
          \<and> set (map fst (distribution s)) = {Bucket 0, Bucket 1})"
proof -
  have h1: "''name'' \<in> set (map fst (coll_fields demo_collection))"
    by (simp add: demo_collection_def)
  have h2: "(250::int) = resolve_doc_count (Some 250) (document_count demo_collection)"
    by (simp add: resolve_doc_count_def)
  have h3: "(0::int) < 250" by simp
  have h4: "(2::int) = min 10 (max 1 (250 div 100))" by simp
  have e: "{0..2 - 1} = {0, 1::int}" by auto
  from default_distribution [OF h1 h2 h3 h4, where 'a = int]
  obtain s where "analyze_sharding demo_collection ''name'' (None :: (int \<Rightarrow> int) option) (Some 250) = Inr s"
    "int (unique_shards s) = 2" "set (map fst (distribution s)) = Bucket ` {0..2 - 1}"
    by blast
  then have "\<exists>s. analyze_sharding demo_collection ''name'' (None :: (int \<Rightarrow> int) option) (Some 250) = Inr s
          \<and> int (unique_shards s) = 2
          \<and> set (map fst (distribution s)) = {Bucket 0, Bucket 1}"
    unfolding e by auto
  with h1 h2 h3 h4 show ?thesis by blast
qed

end
